theory Spec2Isabelle
  imports Main
begin

section \<open>The WS2812B driver (WS2812B.py)\<close>

text \<open>
  A shallow embedding of the MicroPython driver \<^verbatim>\<open>WS2812B.py\<close>: the class
  \<^verbatim>\<open>chain\<close> with its methods \<^verbatim>\<open>set_seq\<close>, \<^verbatim>\<open>shift_buffer\<close>,
  \<^verbatim>\<open>output_buffer\<close>, \<^verbatim>\<open>convert_step\<close> and \<^verbatim>\<open>convert_seq\<close>.
  Python's dynamically typed values are a datatype, its exceptions are values of a
  sum type, the attributes of the object are a record that every method takes and
  returns, and the lines written by \<^verbatim>\<open>print\<close> are collected in the record.
\<close>

subsection \<open>Python values and exceptions\<close>

datatype pyval =
    PyNone
  | PyBool bool
  | PyInt int
  | PyStr string
  | PyTuple "pyval list"
  | PyList "pyval list"

datatype error = TypeError | IndexError | ZeroDivisionError

text \<open>\<^verbatim>\<open>isinstance(v, list)\<close>.\<close>

fun is_list :: "pyval \<Rightarrow> bool" where
  "is_list (PyList xs) = True"
| "is_list v = False"

text \<open>\<^verbatim>\<open>len(v)\<close>: defined on strings, tuples and lists, a TypeError elsewhere.\<close>

fun py_len :: "pyval \<Rightarrow> error + nat" where
  "py_len (PyStr s) = Inr (length s)"
| "py_len (PyTuple xs) = Inr (length xs)"
| "py_len (PyList xs) = Inr (length xs)"
| "py_len v = Inl TypeError"

text \<open>
  \<^verbatim>\<open>xs[k]\<close> on the elements of a Python list, for an index \<open>k \<ge> 0\<close> (the driver
  never builds a negative index): an IndexError out of range.
\<close>

definition list_getitem :: "'a list \<Rightarrow> nat \<Rightarrow> error + 'a" where
  "list_getitem xs k = (if k < length xs then Inr (xs ! k) else Inl IndexError)"

text \<open>\<^verbatim>\<open>v[k]\<close> on any value, for \<open>k \<ge> 0\<close>.\<close>

fun py_getitem :: "pyval \<Rightarrow> nat \<Rightarrow> error + pyval" where
  "py_getitem (PyList xs) k = list_getitem xs k"
| "py_getitem (PyTuple xs) k = list_getitem xs k"
| "py_getitem (PyStr s) k =
     (case list_getitem s k of Inl e \<Rightarrow> Inl e | Inr ch \<Rightarrow> Inr (PyStr [ch]))"
| "py_getitem v k = Inl TypeError"

text \<open>
  \<^verbatim>\<open>v & m\<close> for an integer \<open>m\<close>. Python's integers are unbounded and \<^verbatim>\<open>&\<close>
  works on the infinite two's complement, as \<open>and\<close> on \<^typ>\<open>int\<close> does; a bool
  counts as 0 or 1; any other operand is a TypeError.
\<close>

fun py_and :: "pyval \<Rightarrow> int \<Rightarrow> error + int" where
  "py_and (PyInt a) m = Inr (and a m)"
| "py_and (PyBool b) m = Inr (and (if b then 1 else 0) m)"
| "py_and v m = Inl TypeError"

subsection \<open>Time constants\<close>

definition T0H :: int where "T0H = 4"
definition T0L :: int where "T0L = 9"
definition T1H :: int where "T1H = 8"
definition T1L :: int where "T1L = 5"
definition TRST :: int where "TRST = 5000"

definition T0 :: "int list" where "T0 = [T0H, T0L]"
definition T1 :: "int list" where "T1 = [T1H, T1L]"

subsection \<open>convert\_step\<close>

text \<open>\<^verbatim>\<open>range(7,-1,-1)\<close>.\<close>

definition range_7_down :: "nat list" where
  "range_7_down = [7, 6, 5, 4, 3, 2, 1, 0]"

text \<open>
  One of the three loops of \<^verbatim>\<open>convert_step\<close>, over the bit positions \<open>js\<close> still to
  visit, for the channel \<^verbatim>\<open>led[k]\<close>; \<open>timing\<close> is the list the loop extends.
  Each round reads \<^verbatim>\<open>led[k]\<close>, then tests \<^verbatim>\<open>led[k] & (1<<j) != 0\<close>
  (in Python \<^verbatim>\<open>&\<close> binds tighter than \<^verbatim>\<open>!=\<close>).
\<close>

fun convert_channel :: "pyval \<Rightarrow> nat \<Rightarrow> nat list \<Rightarrow> int list \<Rightarrow> error + int list" where
  "convert_channel led k [] timing = Inr timing"
| "convert_channel led k (j # js) timing =
     (case py_getitem led k of
        Inl e \<Rightarrow> Inl e
      | Inr v \<Rightarrow>
          (case py_and v (push_bit j 1) of
             Inl e \<Rightarrow> Inl e
           | Inr x \<Rightarrow>
               convert_channel led k js (if x \<noteq> 0 then timing @ T1 else timing @ T0)))"

text \<open>The three loops in the order of the source: green \<^verbatim>\<open>led[1]\<close>, red
  \<^verbatim>\<open>led[0]\<close>, blue \<^verbatim>\<open>led[2]\<close>.\<close>

definition convert_step :: "pyval \<Rightarrow> error + int list" where
  "convert_step led =
     (case convert_channel led 1 range_7_down [] of
        Inl e \<Rightarrow> Inl e
      | Inr tg \<Rightarrow>
          (case convert_channel led 0 range_7_down tg of
             Inl e \<Rightarrow> Inl e
           | Inr tr \<Rightarrow> convert_channel led 2 range_7_down tr))"

subsection \<open>The chain object\<close>

text \<open>
  The attributes of a \<^verbatim>\<open>chain\<close>. \<open>timing_buffer\<close> and \<open>seq_buffer\<close> are \<open>None\<close>
  where the attribute is Python's \<^verbatim>\<open>None\<close>; \<open>seq_buffer\<close> otherwise holds the
  elements of the list given to \<^verbatim>\<open>set_seq\<close>. \<open>console\<close> holds the lines printed so
  far. The peripheral handle \<^verbatim>\<open>self.rmt\<close> is an external object: the calls made on
  it are what \<open>output_buffer\<close> returns.
\<close>

record chain =
  led_count :: int
  gpio_pin :: string
  timing_buffer :: "int list option"
  seq_buffer :: "pyval list option"
  seq_buffer_len :: nat
  shift_pos :: nat
  console :: "string list"

text \<open>\<^verbatim>\<open>__init__\<close>.\<close>

definition chain_init :: "int \<Rightarrow> string \<Rightarrow> chain" where
  "chain_init n pin =
     \<lparr>led_count = n, gpio_pin = pin, timing_buffer = None, seq_buffer = None,
      seq_buffer_len = 0, shift_pos = 0, console = []\<rparr>"

text \<open>\<^verbatim>\<open>print(s)\<close>.\<close>

definition print :: "string \<Rightarrow> string list \<Rightarrow> string list" where
  "print s out = out @ [s]"

definition printHelp :: "string \<Rightarrow> string list \<Rightarrow> string list" where
  "printHelp msg out =
     print (''colorValues = ['' @ [CHR 0x0A, CHR 0x09] @
            ''[led1_r, led1_g, led1_b], [led2_r, led2_g, led2_b], ... ]'')
       (print (msg @ '' ex.:'') out)"

subsection \<open>convert\_seq\<close>

text \<open>
  The loop of \<^verbatim>\<open>convert_seq\<close> over the LED positions \<open>is\<close> still to visit. The
  state of the loop is the list \<open>timing\<close> and the console; an exception leaves the
  loop with the console as it is then. The two checks print and go on
  (\<^verbatim>\<open>pass\<close>), so the entry is converted whatever they found.
\<close>

fun convert_seq_loop ::
  "pyval list \<Rightarrow> nat \<Rightarrow> nat list \<Rightarrow> int list \<Rightarrow> string list \<Rightarrow>
     (error \<times> string list) + (int list \<times> string list)" where
  "convert_seq_loop sb seq_len [] timing out = Inr (timing, out)"
| "convert_seq_loop sb seq_len (i # is) timing out =
     (if seq_len = 0 then Inl (ZeroDivisionError, out)
      else
        (case list_getitem sb (i mod seq_len) of
           Inl e \<Rightarrow> Inl (e, out)
         | Inr led \<Rightarrow>
             (let out1 = (if \<not> is_list led
                          then print ''Child of sequence buffer is not a list. Ignoring.'' out
                          else out)
              in case py_len led of
                   Inl e \<Rightarrow> Inl (e, out1)
                 | Inr n \<Rightarrow>
                     (let out2 = (if n \<noteq> 3
                                  then print ''Child of sequence buffer has not 3 elements (R, G, B) Ignoring.'' out1
                                  else out1)
                      in case convert_step led of
                           Inl e \<Rightarrow> Inl (e, out2)
                         | Inr t \<Rightarrow> convert_seq_loop sb seq_len is (timing @ t) out2))))"

text \<open>
  \<^verbatim>\<open>convert_seq\<close>: \<^verbatim>\<open>range(0, self.led_count)\<close> is empty for a count below 1.
  An exception (\<open>Inl\<close>) carries the object as the exception leaves it: the timing
  buffer is assigned only after the loop.
\<close>

definition convert_seq :: "chain \<Rightarrow> (error \<times> chain) + chain" where
  "convert_seq c =
     (case seq_buffer c of
        None \<Rightarrow> Inl (TypeError, c)
      | Some sb \<Rightarrow>
          (case convert_seq_loop sb (length sb) [0 ..< nat (led_count c)] [] (console c) of
             Inl (e, out) \<Rightarrow> Inl (e, c\<lparr>console := out\<rparr>)
           | Inr (timing, out) \<Rightarrow> Inr (c\<lparr>timing_buffer := Some timing, console := out\<rparr>)))"

subsection \<open>set\_seq, shift\_buffer, output\_buffer\<close>

definition set_seq :: "chain \<Rightarrow> pyval \<Rightarrow> (error \<times> chain) + chain" where
  "set_seq c led_seq =
     (case led_seq of
        PyList xs \<Rightarrow>
          convert_seq (c\<lparr>seq_buffer := Some xs, shift_pos := 0, seq_buffer_len := length xs\<rparr>)
      | _ \<Rightarrow>
          Inr (c\<lparr>seq_buffer := None, timing_buffer := None, shift_pos := 0,
                 seq_buffer_len := 0,
                 console := printHelp ''Argument led_seq is not a list!'' (console c)\<rparr>))"

text \<open>
  \<^verbatim>\<open>shift_buffer\<close>. The position is assigned before the entry is read and
  converted, so an exception there leaves the object with the new position and the
  old timing buffer.
\<close>

definition shift_buffer :: "chain \<Rightarrow> (error \<times> chain) + chain" where
  "shift_buffer c =
     (case timing_buffer c of
        None \<Rightarrow> Inr c
      | Some tb \<Rightarrow>
          (let p = shift_pos c + 1;
               p' = (if p \<ge> seq_buffer_len c then 0 else p);
               c1 = c\<lparr>shift_pos := p'\<rparr>
           in case seq_buffer c of
                None \<Rightarrow> Inl (TypeError, c1)
              | Some sb \<Rightarrow>
                  (case list_getitem sb p' of
                     Inl e \<Rightarrow> Inl (e, c1)
                   | Inr led \<Rightarrow>
                       (case convert_step led of
                          Inl e \<Rightarrow> Inl (e, c1)
                        | Inr t \<Rightarrow> Inr (c1\<lparr>timing_buffer := Some (drop 48 tb @ t)\<rparr>)))))"

text \<open>The calls \<^verbatim>\<open>output_buffer\<close> makes on the RMT peripheral, in order.\<close>

datatype level = LOW | HIGH

datatype rmt_call =
    RMT_new nat string level
  | RMT_pulses_send "int list" level
  | RMT_deinit

definition output_buffer :: "chain \<Rightarrow> chain \<times> rmt_call list" where
  "output_buffer c =
     (case timing_buffer c of
        None \<Rightarrow> (c, [])
      | Some tb \<Rightarrow>
          (let timing_complete = tb @ [TRST]
           in (c, [RMT_new 3 (gpio_pin c) LOW, RMT_pulses_send timing_complete HIGH, RMT_deinit])))"

text \<open>Calling \<^verbatim>\<open>shift_buffer\<close> \<open>k\<close> times in a row; the first exception ends the run.\<close>

fun shift_times :: "nat \<Rightarrow> chain \<Rightarrow> (error \<times> chain) + chain" where
  "shift_times 0 c = Inr c"
| "shift_times (Suc k) c =
     (case shift_buffer c of Inl ec \<Rightarrow> Inl ec | Inr c' \<Rightarrow> shift_times k c')"

subsection \<open>The encoding as the specification words it\<close>

text \<open>
  A colour is the triple of its channels in the order of a list entry: red, green,
  blue. \<open>py_color\<close> is the Python entry \<^verbatim>\<open>[r, g, b]\<close>.
\<close>

type_synonym color = "int \<times> int \<times> int"

fun py_color :: "color \<Rightarrow> pyval" where
  "py_color (r, g, b) = PyList [PyInt r, PyInt g, PyInt b]"

text \<open>A 1-bit is the pair (T1H, T1L), a 0-bit the pair (T0H, T0L).\<close>

definition bit_pair :: "bool \<Rightarrow> int list" where
  "bit_pair b = (if b then [T1H, T1L] else [T0H, T0L])"

text \<open>The 8 low bits of a channel, most significant first.\<close>

definition msb_bits :: "int \<Rightarrow> bool list" where
  "msb_bits v = map (bit v) (rev [0 ..< 8])"

text \<open>Green, then red, then blue.\<close>

fun encode_color :: "color \<Rightarrow> int list" where
  "encode_color (r, g, b) = concat (map bit_pair (msb_bits g @ msb_bits r @ msb_bits b))"

text \<open>The buffer for \<open>n\<close> LEDs: the encoding of entry \<open>i mod L\<close> for each position \<open>i\<close>.\<close>

definition build :: "color list \<Rightarrow> nat \<Rightarrow> int list" where
  "build cols n = concat (map (\<lambda>i. encode_color (cols ! (i mod length cols))) [0 ..< n])"

text \<open>The 24 bits of a colour in the order they are sent.\<close>

fun color_bits :: "color \<Rightarrow> bool list" where
  "color_bits (r, g, b) = msb_bits g @ msb_bits r @ msb_bits b"

text \<open>A channel that is an unsigned 8-bit value, and a colour of three such channels.\<close>

definition u8 :: "int \<Rightarrow> bool" where
  "u8 v = (0 \<le> v \<and> v \<le> 255)"

fun u8_color :: "color \<Rightarrow> bool" where
  "u8_color (r, g, b) = (u8 r \<and> u8 g \<and> u8 b)"

subsection \<open>Decoding a buffer\<close>

text \<open>
  The driver has no decoder. The one here follows the wording of the round-trip
  property: read the buffer as consecutive (high, low) pairs, take (T1H, T1L) as
  bit 1 and (T0H, T0L) as bit 0 (any other pair does not decode), and reassemble
  the bytes of each LED in the order green, red, blue, most significant bit first.
\<close>

fun decode_pairs :: "int list \<Rightarrow> bool list option" where
  "decode_pairs [] = Some []"
| "decode_pairs [h] = None"
| "decode_pairs (h # l # rest) =
     (if h = T1H \<and> l = T1L then map_option ((#) True) (decode_pairs rest)
      else if h = T0H \<and> l = T0L then map_option ((#) False) (decode_pairs rest)
      else None)"

definition byte_of_bits :: "bool list \<Rightarrow> int" where
  "byte_of_bits bs = foldl (\<lambda>acc b. 2 * acc + (if b then 1 else 0)) 0 bs"

fun colors_of_bits :: "nat \<Rightarrow> bool list \<Rightarrow> color list option" where
  "colors_of_bits 0 bs = (if bs = [] then Some [] else None)"
| "colors_of_bits (Suc n) bs =
     (if length bs < 24 then None
      else
        (let g = byte_of_bits (take 8 bs);
             r = byte_of_bits (take 8 (drop 8 bs));
             b = byte_of_bits (take 8 (drop 16 bs))
         in map_option ((#) (r, g, b)) (colors_of_bits n (drop 24 bs))))"

text \<open>Decoding the buffer of a chain of \<open>n\<close> LEDs.\<close>

definition decode_buffer :: "nat \<Rightarrow> int list \<Rightarrow> color list option" where
  "decode_buffer n tb =
     (case decode_pairs tb of None \<Rightarrow> None | Some bs \<Rightarrow> colors_of_bits n bs)"

section \<open>Properties\<close>

subsection \<open>The encoder\<close>

lemma test_bit: "(and (a::int) (2 ^ j) = 0) = (\<not> bit a j)"
  using bit_iff_and_push_bit_not_eq_0 [of a j] by (simp add: push_bit_eq_mult)

lemma convert_channel_color:
  "k < 3 \<Longrightarrow>
   convert_channel (py_color (r, g, b)) k js timing =
     Inr (timing @ concat (map (\<lambda>j. bit_pair (bit ([r, g, b] ! k) j)) js))"
proof (induction js arbitrary: timing)
  case Nil
  then show ?case by simp
next
  case (Cons j js)
  have item: "py_getitem (py_color (r, g, b)) k = Inr (PyInt ([r, g, b] ! k))"
    using Cons.prems by (cases k) (auto simp: list_getitem_def less_Suc_eq)
  show ?case
    using Cons.IH [OF Cons.prems]
    by (simp add: item test_bit bit_pair_def T0_def T1_def del: py_color.simps)
qed

lemma range_7_down_rev: "range_7_down = rev [0 ..< 8]"
  by (simp add: range_7_down_def upt_rec)

lemma convert_step_color: "convert_step (py_color col) = Inr (encode_color col)"
proof (cases col)
  case (fields r g b)
  show ?thesis
    unfolding fields convert_step_def
    by (simp add: convert_channel_color msb_bits_def range_7_down_rev comp_def
          del: py_color.simps)
qed

lemma length_bit_pair: "length (bit_pair b) = 2"
  by (simp add: bit_pair_def)

lemma length_concat_bit_pair:
  "length (concat (map (\<lambda>x. bit_pair (f x)) xs)) = 2 * length xs"
  by (induction xs) (simp_all add: length_bit_pair)

lemma length_encode_color: "length (encode_color col) = 48"
  by (cases col) (simp add: length_concat_bit_pair msb_bits_def comp_def)

text \<open>
  C1. For every colour entry \<^verbatim>\<open>[r, g, b]\<close>, \<open>convert_step\<close> returns exactly 48
  duration values: the 8 bits of the green channel most significant first, then those
  of red, then those of blue, a 1-bit as (T1H, T1L) and a 0-bit as (T0H, T0L). It
  holds for all integer channels, those of 8 bits included.
\<close>

theorem convert_step_encodes:
  "convert_step (PyList [PyInt r, PyInt g, PyInt b]) =
     Inr (concat (map bit_pair (msb_bits g @ msb_bits r @ msb_bits b)))
   \<and> length (concat (map bit_pair (msb_bits g @ msb_bits r @ msb_bits b))) = 48
   \<and> msb_bits g = [bit g 7, bit g 6, bit g 5, bit g 4, bit g 3, bit g 2, bit g 1, bit g 0]
   \<and> bit_pair True = [T1H, T1L] \<and> bit_pair False = [T0H, T0L]"
proof -
  have "convert_step (py_color (r, g, b)) = Inr (encode_color (r, g, b))"
    by (rule convert_step_color)
  moreover have "length (encode_color (r, g, b)) = 48"
    by (rule length_encode_color)
  moreover have "msb_bits g = [bit g 7, bit g 6, bit g 5, bit g 4, bit g 3, bit g 2, bit g 1, bit g 0]"
    by (simp add: msb_bits_def upt_rec eval_nat_numeral)
  ultimately show ?thesis
    by (simp add: bit_pair_def)
qed

subsection \<open>The buffer builder and the shift\<close>


lemma is_list_py_color: "is_list (py_color col)"
  by (cases col) simp

lemma py_len_py_color: "py_len (py_color col) = Inr 3"
  by (cases col) simp

lemma convert_seq_loop_colors:
  assumes "cols \<noteq> []"
  shows "convert_seq_loop (map py_color cols) (length cols) is timing out =
           Inr (timing @ concat (map (\<lambda>i. encode_color (cols ! (i mod length cols))) is), out)"
proof (induction "is" arbitrary: timing)
  case Nil
  then show ?case by simp
next
  case (Cons i "is")
  have "i mod length cols < length cols"
    using assms by simp
  then have item: "list_getitem (map py_color cols) (i mod length cols) =
      Inr (py_color (cols ! (i mod length cols)))"
    by (simp add: list_getitem_def)
  show ?case
    using assms Cons.IH
    by (simp add: item is_list_py_color py_len_py_color convert_step_color)
qed

lemma convert_seq_colors:
  assumes "seq_buffer c = Some (map py_color cols)" and "cols \<noteq> []"
  shows "convert_seq c = Inr (c\<lparr>timing_buffer := Some (build cols (nat (led_count c)))\<rparr>)"
  using assms by (simp add: convert_seq_def convert_seq_loop_colors build_def)

lemma set_seq_colors:
  assumes "cols \<noteq> []"
  shows "set_seq c (PyList (map py_color cols)) =
           Inr (c\<lparr>seq_buffer := Some (map py_color cols), shift_pos := 0,
                  seq_buffer_len := length cols,
                  timing_buffer := Some (build cols (nat (led_count c)))\<rparr>)"
  using assms by (simp add: set_seq_def convert_seq_colors)

lemma length_build: "length (build cols n) = n * 48"
  by (simp add: build_def length_concat comp_def length_encode_color sum_list_triv)

lemma shift_buffer_colors:
  assumes "timing_buffer c = Some tb"
    and "seq_buffer c = Some (map py_color cols)"
    and "seq_buffer_len c = length cols"
    and "shift_pos c < length cols"
  shows "shift_buffer c =
           Inr (c\<lparr>shift_pos := (if shift_pos c + 1 = length cols then 0 else shift_pos c + 1),
                  timing_buffer := Some (drop 48 tb @
                    encode_color (cols ! (if shift_pos c + 1 = length cols then 0 else shift_pos c + 1)))\<rparr>)"
  using assms
  by (auto simp: shift_buffer_def Let_def list_getitem_def convert_step_color)


text \<open>
  C2. For a sequence of well-formed colours of length \<open>L > 0\<close> and \<open>led_count = N > 0\<close>,
  \<open>convert_seq\<close> stores the concatenation, for the positions \<open>i = 0, \<dots>, N - 1\<close> in
  order, of the 48 values of entry \<open>i mod L\<close> (the values \<open>convert_step\<close> returns
  for it); the buffer has \<open>N * 48\<close> values, and nothing else of the object changes.
\<close>

theorem convert_seq_builds:
  assumes "seq_buffer c = Some (map py_color cols)"
    and "cols \<noteq> []"
    and "0 < led_count c"
  shows "convert_seq c =
           Inr (c\<lparr>timing_buffer :=
                    Some (concat (map (\<lambda>i. encode_color (cols ! (i mod length cols)))
                                      [0 ..< nat (led_count c)]))\<rparr>)
         \<and> length (concat (map (\<lambda>i. encode_color (cols ! (i mod length cols)))
                               [0 ..< nat (led_count c)])) = nat (led_count c) * 48
         \<and> map convert_step (map py_color cols) = map (\<lambda>col. Inr (encode_color col)) cols"
proof -
  have "convert_seq c = Inr (c\<lparr>timing_buffer := Some (build cols (nat (led_count c)))\<rparr>)"
    using assms(1,2) by (rule convert_seq_colors)
  moreover have "length (build cols (nat (led_count c))) = nat (led_count c) * 48"
    by (rule length_build)
  ultimately show ?thesis
    by (simp add: build_def convert_step_color)
qed

theorem convert_seq_builds_witness:
  "convert_seq ((chain_init 3 ''P22'')\<lparr>seq_buffer := Some (map py_color [(255, 0, 0), (0, 255, 0)])\<rparr>) =
     Inr ((chain_init 3 ''P22'')
            \<lparr>seq_buffer := Some (map py_color [(255, 0, 0), (0, 255, 0)]),
             timing_buffer := Some (encode_color (255, 0, 0) @ encode_color (0, 255, 0) @
                                    encode_color (255, 0, 0))\<rparr>)
   \<and> length (encode_color (255, 0, 0) @ encode_color (0, 255, 0) @ encode_color (255, 0, 0)) = 144"
  using convert_seq_builds
    [of "(chain_init 3 ''P22'')\<lparr>seq_buffer := Some (map py_color [(255, 0, 0), (0, 255, 0)])\<rparr>"
        "[(255, 0, 0), (0, 255, 0)]"]
  by (simp add: chain_init_def upt_rec del: encode_color.simps py_color.simps)

text \<open>
  C3. On a chain with a timing buffer, a sequence of well-formed colours of length
  \<open>L > 0\<close> and \<open>shift_pos < L\<close>, one call of \<open>shift_buffer\<close> moves \<open>shift_pos\<close> one
  on (to 0 when it reaches \<open>L\<close>), drops the first 48 values of the buffer and
  appends the 48 values of the entry at the new \<open>shift_pos\<close>.
\<close>

theorem shift_buffer_step:
  assumes "timing_buffer c = Some tb"
    and "seq_buffer c = Some (map py_color cols)"
    and "seq_buffer_len c = length cols"
    and "shift_pos c < length cols"
  shows "shift_buffer c =
           Inr (c\<lparr>shift_pos := (if shift_pos c + 1 = length cols then 0 else shift_pos c + 1),
                  timing_buffer := Some (drop 48 tb @
                    encode_color (cols ! (if shift_pos c + 1 = length cols then 0
                                          else shift_pos c + 1)))\<rparr>)
         \<and> convert_step (py_color (cols ! (if shift_pos c + 1 = length cols then 0
                                            else shift_pos c + 1))) =
             Inr (encode_color (cols ! (if shift_pos c + 1 = length cols then 0
                                        else shift_pos c + 1)))"
  using shift_buffer_colors [OF assms] by (simp add: convert_step_color)

theorem shift_buffer_step_witness:
  "shift_buffer
     \<lparr>led_count = 2, gpio_pin = ''P22'', timing_buffer = Some (replicate 96 4),
      seq_buffer = Some (map py_color [(255, 0, 0), (0, 255, 0)]),
      seq_buffer_len = 2, shift_pos = 1, console = []\<rparr> =
   Inr \<lparr>led_count = 2, gpio_pin = ''P22'',
        timing_buffer = Some (replicate 48 4 @ encode_color (255, 0, 0)),
        seq_buffer = Some (map py_color [(255, 0, 0), (0, 255, 0)]),
        seq_buffer_len = 2, shift_pos = 0, console = []\<rparr>"
  using shift_buffer_step
    [of "\<lparr>led_count = 2, gpio_pin = ''P22'', timing_buffer = Some (replicate 96 4),
          seq_buffer = Some (map py_color [(255, 0, 0), (0, 255, 0)]),
          seq_buffer_len = 2, shift_pos = 1, console = []\<rparr>"
        "replicate 96 4" "[(255, 0, 0), (0, 255, 0)]"]
  by (simp del: encode_color.simps py_color.simps)

subsection \<open>Repeated shifts\<close>


lemma shift_times_preserves:
  assumes "seq_buffer c = Some (map py_color cols)"
    and "seq_buffer_len c = length cols"
    and "shift_pos c < length cols"
    and "timing_buffer c = Some tb"
    and "P tb"
    and step: "\<And>tb col. P tb \<Longrightarrow> P (drop 48 tb @ encode_color col)"
  shows "\<exists>c' tb'. shift_times k c = Inr c' \<and> timing_buffer c' = Some tb' \<and> P tb'
           \<and> shift_pos c' < length cols \<and> seq_buffer c' = Some (map py_color cols)
           \<and> seq_buffer_len c' = length cols \<and> led_count c' = led_count c
           \<and> console c' = console c \<and> gpio_pin c' = gpio_pin c"
  using assms(1-5)
proof (induction k arbitrary: c tb)
  case 0
  then show ?case by simp
next
  case (Suc k)
  let ?p = "if shift_pos c + 1 = length cols then 0 else shift_pos c + 1"
  let ?c = "c\<lparr>shift_pos := ?p, timing_buffer := Some (drop 48 tb @ encode_color (cols ! ?p))\<rparr>"
  have sb: "shift_buffer c = Inr ?c"
    using Suc.prems(4,1,2,3) by (rule shift_buffer_colors)
  have "\<exists>c' tb'. shift_times k ?c = Inr c' \<and> timing_buffer c' = Some tb' \<and> P tb'
           \<and> shift_pos c' < length cols \<and> seq_buffer c' = Some (map py_color cols)
           \<and> seq_buffer_len c' = length cols \<and> led_count c' = led_count ?c
           \<and> console c' = console ?c \<and> gpio_pin c' = gpio_pin ?c"
  proof (rule Suc.IH)
    show "seq_buffer ?c = Some (map py_color cols)" using Suc.prems(1) by simp
    show "seq_buffer_len ?c = length cols" using Suc.prems(2) by simp
    show "shift_pos ?c < length cols" using Suc.prems(3) by auto
    show "timing_buffer ?c = Some (drop 48 tb @ encode_color (cols ! ?p))" by simp
    show "P (drop 48 tb @ encode_color (cols ! ?p))" using Suc.prems(5) by (rule step)
  qed
  then show ?case by (simp add: sb)
qed

lemma set_bit_pair: "set (bit_pair b) \<subseteq> {T0H, T0L, T1H, T1L}"
  by (simp add: bit_pair_def)

lemma set_concat_bit_pair: "set (concat (map bit_pair bs)) \<subseteq> {T0H, T0L, T1H, T1L}"
  using set_bit_pair by (induction bs) auto

lemma set_encode_color: "set (encode_color col) \<subseteq> {T0H, T0L, T1H, T1L}"
proof (cases col)
  case (fields r g b)
  show ?thesis unfolding fields encode_color.simps by (rule set_concat_bit_pair)
qed

lemma set_build: "set (build cols n) \<subseteq> {T0H, T0L, T1H, T1L}"
proof -
  have h: "set (concat (map f xs)) \<subseteq> {T0H, T0L, T1H, T1L}"
    if "\<And>x. set (f x) \<subseteq> {T0H, T0L, T1H, T1L}" for f :: "nat \<Rightarrow> int list" and xs
    using that by (induction xs) auto
  show ?thesis
    unfolding build_def by (rule h) (rule set_encode_color)
qed

text \<open>
  C8. For \<open>led_count = N > 0\<close> and a sequence of well-formed colours of length
  \<open>L > 0\<close>: \<open>set_seq\<close> succeeds, any number \<open>k\<close> of \<open>shift_buffer\<close> calls after it
  succeed, and in the state reached (\<open>k = 0\<close>: right after \<open>set_seq\<close>) the timing
  buffer has \<open>N * 48\<close> values and \<open>shift_pos < L\<close>.
\<close>

theorem shift_keeps_invariants:
  assumes "cols \<noteq> []" and "0 < led_count c0"
  shows "\<exists>c1 c2 tb. set_seq c0 (PyList (map py_color cols)) = Inr c1
           \<and> shift_times k c1 = Inr c2
           \<and> timing_buffer c2 = Some tb
           \<and> length tb = nat (led_count c0) * 48
           \<and> shift_pos c2 < length cols"
proof -
  let ?n = "nat (led_count c0)"
  let ?c1 = "c0\<lparr>seq_buffer := Some (map py_color cols), shift_pos := 0,
                  seq_buffer_len := length cols,
                  timing_buffer := Some (build cols ?n)\<rparr>"
  have s: "set_seq c0 (PyList (map py_color cols)) = Inr ?c1"
    using assms(1) by (rule set_seq_colors)
  have pos: "48 \<le> ?n * 48"
    using assms(2) by simp
  have "\<exists>c' tb'. shift_times k ?c1 = Inr c' \<and> timing_buffer c' = Some tb'
           \<and> length tb' = ?n * 48
           \<and> shift_pos c' < length cols \<and> seq_buffer c' = Some (map py_color cols)
           \<and> seq_buffer_len c' = length cols \<and> led_count c' = led_count ?c1
           \<and> console c' = console ?c1 \<and> gpio_pin c' = gpio_pin ?c1"
  proof (rule shift_times_preserves [where P = "\<lambda>tb. length tb = ?n * 48"])
    show "seq_buffer ?c1 = Some (map py_color cols)" by simp
    show "seq_buffer_len ?c1 = length cols" by simp
    show "shift_pos ?c1 < length cols" using assms(1) by simp
    show "timing_buffer ?c1 = Some (build cols ?n)" by simp
    show "length (build cols ?n) = ?n * 48" by (rule length_build)
    show "length (drop 48 tb @ encode_color col) = ?n * 48" if "length tb = ?n * 48" for tb col
      using that pos by (simp add: length_encode_color)
  qed
  then show ?thesis
    using s by auto
qed

theorem shift_keeps_invariants_witness:
  "\<exists>c1 c2 tb.
      set_seq (chain_init 2 ''P22'') (PyList (map py_color [(255, 0, 0), (0, 255, 0), (0, 0, 255)])) = Inr c1
    \<and> shift_times 5 c1 = Inr c2
    \<and> timing_buffer c2 = Some tb
    \<and> length tb = 96
    \<and> shift_pos c2 < 3"
  using shift_keeps_invariants
    [of "[(255, 0, 0), (0, 255, 0), (0, 0, 255)]" "chain_init 2 ''P22''" 5]
  by (simp add: chain_init_def numeral_3_eq_3 del: py_color.simps)

text \<open>
  C10. For a sequence of well-formed colours of length \<open>L > 0\<close> (any integer
  channels), every value of the timing buffer that \<open>set_seq\<close> builds and that any
  number of \<open>shift_buffer\<close> calls leave is one of T0H, T0L, T1H, T1L; and
  \<open>output_buffer\<close> hands the buffer followed by TRST to the peripheral and returns
  the object as it was, the stored buffer included.
\<close>

theorem buffer_holds_bit_timings:
  assumes "cols \<noteq> []"
  shows "\<exists>c1 c2 tb. set_seq c0 (PyList (map py_color cols)) = Inr c1
           \<and> shift_times k c1 = Inr c2
           \<and> timing_buffer c2 = Some tb
           \<and> set tb \<subseteq> {T0H, T0L, T1H, T1L}
           \<and> output_buffer c2 =
               (c2, [RMT_new 3 (gpio_pin c0) LOW, RMT_pulses_send (tb @ [TRST]) HIGH, RMT_deinit])"
proof -
  let ?n = "nat (led_count c0)"
  let ?c1 = "c0\<lparr>seq_buffer := Some (map py_color cols), shift_pos := 0,
                  seq_buffer_len := length cols,
                  timing_buffer := Some (build cols ?n)\<rparr>"
  have s: "set_seq c0 (PyList (map py_color cols)) = Inr ?c1"
    using assms(1) by (rule set_seq_colors)
  have "\<exists>c' tb'. shift_times k ?c1 = Inr c' \<and> timing_buffer c' = Some tb'
           \<and> set tb' \<subseteq> {T0H, T0L, T1H, T1L}
           \<and> shift_pos c' < length cols \<and> seq_buffer c' = Some (map py_color cols)
           \<and> seq_buffer_len c' = length cols \<and> led_count c' = led_count ?c1
           \<and> console c' = console ?c1 \<and> gpio_pin c' = gpio_pin ?c1"
  proof (rule shift_times_preserves [where P = "\<lambda>tb. set tb \<subseteq> {T0H, T0L, T1H, T1L}"])
    show "seq_buffer ?c1 = Some (map py_color cols)" by simp
    show "seq_buffer_len ?c1 = length cols" by simp
    show "shift_pos ?c1 < length cols" using assms(1) by simp
    show "timing_buffer ?c1 = Some (build cols ?n)" by simp
    show "set (build cols ?n) \<subseteq> {T0H, T0L, T1H, T1L}" by (rule set_build)
    show "set (drop 48 tb @ encode_color col) \<subseteq> {T0H, T0L, T1H, T1L}"
      if "set tb \<subseteq> {T0H, T0L, T1H, T1L}" for tb col
    proof -
      have "set (drop 48 tb) \<subseteq> set tb" by (rule set_drop_subset)
      with that set_encode_color [of col] show ?thesis by simp
    qed
  qed
  then obtain c2 tb where c2: "shift_times k ?c1 = Inr c2" "timing_buffer c2 = Some tb"
      "set tb \<subseteq> {T0H, T0L, T1H, T1L}" "gpio_pin c2 = gpio_pin ?c1"
    by blast
  have "output_buffer c2 =
      (c2, [RMT_new 3 (gpio_pin c0) LOW, RMT_pulses_send (tb @ [TRST]) HIGH, RMT_deinit])"
    using c2(2,4) by (simp add: output_buffer_def)
  with s c2(1,2,3) show ?thesis by blast
qed

theorem buffer_holds_bit_timings_witness:
  "\<exists>c1 c2 tb.
      set_seq (chain_init 2 ''P22'') (PyList (map py_color [(255, 0, 0), (0, 255, 0), (0, 0, 255)])) = Inr c1
    \<and> shift_times 4 c1 = Inr c2
    \<and> timing_buffer c2 = Some tb
    \<and> set tb \<subseteq> {T0H, T0L, T1H, T1L}
    \<and> output_buffer c2 =
        (c2, [RMT_new 3 ''P22'' LOW, RMT_pulses_send (tb @ [TRST]) HIGH, RMT_deinit])"
  using buffer_holds_bit_timings
    [of "[(255, 0, 0), (0, 255, 0), (0, 0, 255)]" "chain_init 2 ''P22''" 4]
  by (simp add: chain_init_def del: py_color.simps)

subsection \<open>Calls before a sequence is set\<close>

text \<open>
  C7, as the driver has it. On a chain whose timing buffer is absent,
  \<open>shift_buffer\<close> and \<open>output_buffer\<close> return normally: no exception is raised,
  nothing is printed, nothing is sent to the peripheral, and the object is
  unchanged.
\<close>

theorem absent_buffer_is_noop: "timing_buffer c = None \<Longrightarrow> shift_buffer c = Inr c \<and> output_buffer c = (c, [])"
  by (simp add: shift_buffer_def output_buffer_def)

theorem absent_buffer_is_noop_witness: "timing_buffer (chain_init 1 ''P5'') = None
   \<and> shift_buffer (chain_init 1 ''P5'') = Inr (chain_init 1 ''P5'')
   \<and> output_buffer (chain_init 1 ''P5'') = (chain_init 1 ''P5'', [])"
  using absent_buffer_is_noop [of "chain_init 1 ''P5''"] by (simp add: chain_init_def)

text \<open>
  C7 as stated asks for a failure. On a new chain of 4 LEDs \<open>shift_buffer\<close> does
  not fail: it returns the object unchanged, and \<open>output_buffer\<close> does the same
  and sends nothing.
\<close>

theorem shift_before_set_seq_returns: "\<not> isl (shift_buffer (chain_init 4 ''P22''))
   \<and> shift_buffer (chain_init 4 ''P22'') = Inr (chain_init 4 ''P22'')
   \<and> output_buffer (chain_init 4 ''P22'') = (chain_init 4 ''P22'', [])"
  by (simp add: shift_buffer_def output_buffer_def chain_init_def)

subsection \<open>Inputs the driver does not guard\<close>

text \<open>
  C5 at a failing input: \<open>set_seq\<close> with the empty list on a chain of 4 LEDs ends
  in the ZeroDivisionError of \<^verbatim>\<open>i % seq_len\<close>. The object is left with the empty
  sequence and the timing buffer it had before: none on a new chain, the buffer of
  the previous sequence otherwise.
\<close>

theorem set_seq_empty_raises:
  "set_seq (chain_init 4 ''P22'') (PyList []) =
     Inl (ZeroDivisionError, (chain_init 4 ''P22'')\<lparr>seq_buffer := Some []\<rparr>)
   \<and> set_seq ((chain_init 4 ''P22'')
                \<lparr>seq_buffer := Some [py_color (255, 0, 0)], seq_buffer_len := 1,
                 shift_pos := 0, timing_buffer := Some (build [(255, 0, 0)] 4)\<rparr>)
              (PyList []) =
     Inl (ZeroDivisionError,
          (chain_init 4 ''P22'')
            \<lparr>seq_buffer := Some [], seq_buffer_len := 0, shift_pos := 0,
             timing_buffer := Some (build [(255, 0, 0)] 4)\<rparr>)"
  by (simp add: set_seq_def convert_seq_def chain_init_def upt_rec del: py_color.simps)

text \<open>
  C6 at two failing inputs, on a chain of 1 LED. The entry \<^verbatim>\<open>[1, 2, 3, 4]\<close> is
  reported as ignored and then converted: the buffer holds the encoding of its
  first three values. The entry \<^verbatim>\<open>[1, 2]\<close> is reported as ignored and then
  converted too, which ends in the IndexError of \<^verbatim>\<open>led[2]\<close>.
\<close>

theorem malformed_entry_is_converted: "set_seq (chain_init 1 ''P22'') (PyList [PyList [PyInt 1, PyInt 2, PyInt 3, PyInt 4]]) =
     Inr ((chain_init 1 ''P22'')
            \<lparr>seq_buffer := Some [PyList [PyInt 1, PyInt 2, PyInt 3, PyInt 4]],
             seq_buffer_len := 1,
             timing_buffer := Some (encode_color (1, 2, 3)),
             console := [''Child of sequence buffer has not 3 elements (R, G, B) Ignoring.'']\<rparr>)
   \<and> set_seq (chain_init 1 ''P22'') (PyList [PyList [PyInt 1, PyInt 2]]) =
     Inl (IndexError,
          (chain_init 1 ''P22'')
            \<lparr>seq_buffer := Some [PyList [PyInt 1, PyInt 2]],
             seq_buffer_len := 1,
             console := [''Child of sequence buffer has not 3 elements (R, G, B) Ignoring.'']\<rparr>)"
  by code_simp

subsection \<open>Round trip\<close>


lemma encode_color_bits: "encode_color col = concat (map bit_pair (color_bits col))"
  by (cases col) simp

lemma decode_pairs_bit_pair:
  "decode_pairs (bit_pair b @ rest) = map_option ((#) b) (decode_pairs rest)"
  by (simp add: bit_pair_def T0H_def T0L_def T1H_def T1L_def)

lemma decode_pairs_encoded: "decode_pairs (concat (map bit_pair bs)) = Some bs"
  by (induction bs) (simp_all add: decode_pairs_bit_pair)

lemma byte_of_bits_rev:
  "byte_of_bits (rev bs) = horner_sum of_bool 2 bs"
  by (induction bs) (simp_all add: byte_of_bits_def)

lemma byte_of_msb_bits: "byte_of_bits (msb_bits v) = take_bit 8 v"
proof -
  have "byte_of_bits (msb_bits v) = horner_sum of_bool 2 (map (bit v) [0 ..< 8])"
    unfolding msb_bits_def rev_map [symmetric] by (rule byte_of_bits_rev)
  also have "\<dots> = take_bit 8 v"
    by (rule horner_sum_bit_eq_take_bit)
  finally show ?thesis .
qed

lemma byte_of_msb_bits_u8: "u8 v \<Longrightarrow> byte_of_bits (msb_bits v) = v"
  by (simp add: byte_of_msb_bits u8_def take_bit_int_eq_self)

lemma length_msb_bits: "length (msb_bits v) = 8"
  by (simp add: msb_bits_def)

lemma length_color_bits: "length (color_bits col) = 24"
  by (cases col) (simp add: length_msb_bits)

lemma colors_of_bits_step:
  assumes "u8_color col"
  shows "colors_of_bits (Suc n) (color_bits col @ rest) = map_option ((#) col) (colors_of_bits n rest)"
proof (cases col)
  case (fields r g b)
  have u: "u8 r" "u8 g" "u8 b" using assms fields by simp_all
  show ?thesis
    unfolding fields
    by (simp add: length_msb_bits byte_of_msb_bits_u8 u)
qed

lemma colors_of_bits_encoded:
  "list_all u8_color cols \<Longrightarrow>
   colors_of_bits (length cols) (concat (map color_bits cols)) = Some cols"
  by (induction cols) (simp_all add: colors_of_bits_step del: colors_of_bits.simps(2))

lemma concat_encode_colors:
  "concat (map encode_color cols) = concat (map bit_pair (concat (map color_bits cols)))"
  by (induction cols) (simp_all add: encode_color_bits del: encode_color.simps color_bits.simps)

lemma build_full: "build cols (length cols) = concat (map encode_color cols)"
proof -
  have "map (\<lambda>i. encode_color (cols ! (i mod length cols))) [0 ..< length cols] =
        map (\<lambda>i. encode_color (cols ! i)) [0 ..< length cols]"
    by simp
  also have "\<dots> = map encode_color (map ((!) cols) [0 ..< length cols])"
    by simp
  also have "\<dots> = map encode_color cols"
    by (simp only: map_nth)
  finally show ?thesis by (simp only: build_def)
qed

lemma decode_build:
  "list_all u8_color cols \<Longrightarrow> decode_buffer (length cols) (build cols (length cols)) = Some cols"
  by (simp add: decode_buffer_def build_full concat_encode_colors decode_pairs_encoded
      colors_of_bits_encoded)

text \<open>
  C9. For \<open>led_count = N > 0\<close> and a sequence of \<open>L = N\<close> well-formed colours with
  channels in 0..255, \<open>set_seq\<close> builds a buffer of \<open>N * 48\<close> values, and decoding
  it (pairs to bits, bits to bytes in the order green, red, blue, most significant
  bit first) gives back the sequence.
\<close>

theorem decode_roundtrip:
  assumes "cols \<noteq> []"
    and "led_count c = int (length cols)"
    and "list_all u8_color cols"
  shows "\<exists>c' tb. set_seq c (PyList (map py_color cols)) = Inr c'
           \<and> timing_buffer c' = Some tb
           \<and> length tb = length cols * 48
           \<and> decode_buffer (length cols) tb = Some cols"
proof -
  have "set_seq c (PyList (map py_color cols)) =
          Inr (c\<lparr>seq_buffer := Some (map py_color cols), shift_pos := 0,
                 seq_buffer_len := length cols,
                 timing_buffer := Some (build cols (length cols))\<rparr>)"
    using set_seq_colors [OF assms(1), of c] assms(2) by simp
  moreover have "decode_buffer (length cols) (build cols (length cols)) = Some cols"
    using assms(3) by (rule decode_build)
  moreover have "length (build cols (length cols)) = length cols * 48"
    by (rule length_build)
  ultimately show ?thesis by simp
qed

theorem decode_roundtrip_witness:
  "\<exists>c' tb. set_seq (chain_init 2 ''P22'') (PyList [PyList [PyInt 255, PyInt 0, PyInt 0], PyList [PyInt 0, PyInt 255, PyInt 7]]) = Inr c'
     \<and> timing_buffer c' = Some tb
     \<and> length tb = 96
     \<and> decode_buffer 2 tb = Some [(255, 0, 0), (0, 255, 7)]"
  using decode_roundtrip [of "[(255, 0, 0), (0, 255, 7)]" "chain_init 2 ''P22''"]
  by (simp add: chain_init_def u8_def numeral_2_eq_2)

subsection \<open>Period of the shift\<close>

text \<open>
  C4 at a failing input: a chain of 2 LEDs with the sequence
  \<^verbatim>\<open>[[255, 0, 0], [0, 255, 0]]\<close>, so \<open>L = 2\<close>. After \<open>set_seq\<close> the buffer is the
  encoding of entry 0 followed by that of entry 1. One \<open>shift_buffer\<close> call leaves
  entry 1 twice; two calls leave entry 1 followed by entry 0, which is not the
  buffer the calls started from.
\<close>

theorem shift_period_broken:
  "set_seq (chain_init 2 ''P22'') (PyList [py_color (255, 0, 0), py_color (0, 255, 0)]) =
     Inr ((chain_init 2 ''P22'')
            \<lparr>seq_buffer := Some [py_color (255, 0, 0), py_color (0, 255, 0)],
             seq_buffer_len := 2,
             timing_buffer := Some (encode_color (255, 0, 0) @ encode_color (0, 255, 0))\<rparr>)
   \<and> shift_times 1
         ((chain_init 2 ''P22'')
            \<lparr>seq_buffer := Some [py_color (255, 0, 0), py_color (0, 255, 0)],
             seq_buffer_len := 2,
             timing_buffer := Some (encode_color (255, 0, 0) @ encode_color (0, 255, 0))\<rparr>) =
     Inr ((chain_init 2 ''P22'')
            \<lparr>seq_buffer := Some [py_color (255, 0, 0), py_color (0, 255, 0)],
             seq_buffer_len := 2, shift_pos := 1,
             timing_buffer := Some (encode_color (0, 255, 0) @ encode_color (0, 255, 0))\<rparr>)
   \<and> shift_times 2
         ((chain_init 2 ''P22'')
            \<lparr>seq_buffer := Some [py_color (255, 0, 0), py_color (0, 255, 0)],
             seq_buffer_len := 2,
             timing_buffer := Some (encode_color (255, 0, 0) @ encode_color (0, 255, 0))\<rparr>) =
     Inr ((chain_init 2 ''P22'')
            \<lparr>seq_buffer := Some [py_color (255, 0, 0), py_color (0, 255, 0)],
             seq_buffer_len := 2, shift_pos := 0,
             timing_buffer := Some (encode_color (0, 255, 0) @ encode_color (255, 0, 0))\<rparr>)
   \<and> encode_color (0, 255, 0) @ encode_color (255, 0, 0) \<noteq>
       encode_color (255, 0, 0) @ encode_color (0, 255, 0)"
  by code_simp

end
